theory Spec2Isabelle
  imports
    Complex_Main
    "HOL-Library.Char_ord"
    "HOL-Library.List_Lexorder"
    "HOL-Library.Product_Lexorder"
    "HOL-Library.Sublist"
    "HOL-Library.Multiset"
begin

section \<open>The limits dashboard (code.py): data model\<close>

text \<open>
  The script reads a CSV of tolerance limits, adds two derived columns, filters the rows by
  two sidebar selections and renders KPIs and three tabs of charts.  The embedding keeps the
  script's own names.

  A row of the CSV has the four columns the script names (\<open>col_base\<close>, \<open>col_var\<close>,
  \<open>col_lic\<close>, \<open>col_lsc\<close>) and any further columns, which the script never reads; they are
  kept as the list of their (header, cell) texts.  Category cells are strings, compared as
  Python compares \<open>str\<close> (lexicographically by code point, which is the byte order of their
  UTF-8 text).  Numeric cells are modelled by exact reals: rounding of float64 and NaN
  cells are outside this model.
\<close>

record row =
  Base :: string
  Variable :: string
  LIC :: real
  LSC :: real
  passthrough :: "(string \<times> string) list"

text \<open>The table after section 3 of the script: the row with \<open>Rango\<close> and \<open>Centro\<close>.\<close>

record drow = row +
  Rango :: real
  Centro :: real

text \<open>
  A DataFrame is the list of its rows in iteration order, each with its index label; a
  Series is the list of (label, value).
\<close>

type_synonym 'r frame = "(nat \<times> 'r) list"

datatype error = ValueError | KeyError | TypeError

subsection \<open>Section 2: loading\<close>

text \<open>
  \<open>load_data\<close>: \<open>pd.read_csv\<close> gives the parsed rows of the file, in file order, the
  default index \<open>0, 1, 2, ...\<close>.  The argument is the parsed content of the file.
\<close>

definition load_data :: "row list \<Rightarrow> row frame" where
  "load_data rows = enumerate 0 rows"

subsection \<open>Section 3: derived columns (lines 50-51)\<close>

text \<open>
  \<open>df["Rango"] = df[col_lsc] - df[col_lic]\<close> and
  \<open>df["Centro"] = (df[col_lsc] + df[col_lic]) / 2\<close>: the assignment adds the column, or
  overwrites it when the frame already has it, so the step applies to a frame of plain rows
  and to a frame that already carries the derived columns alike.
\<close>

definition derive_row :: "'m row_scheme \<Rightarrow> drow" where
  "derive_row r =
     \<lparr>Base = Base r, Variable = Variable r, LIC = LIC r, LSC = LSC r,
      passthrough = passthrough r,
      Rango = LSC r - LIC r, Centro = (LSC r + LIC r) / 2\<rparr>"

definition derivation :: "'m row_scheme frame \<Rightarrow> drow frame" where
  "derivation df = map (\<lambda>(i, r). (i, derive_row r)) df"

subsection \<open>Section 4: sidebar filters (lines 59-81)\<close>

text \<open>\<open>Series.unique()\<close>: the distinct values in order of first appearance.\<close>

fun unique :: "'a list \<Rightarrow> 'a list" where
  "unique [] = []"
| "unique (x # xs) = x # unique (filter (\<lambda>y. y \<noteq> x) xs)"

definition bases_unicas :: "drow frame \<Rightarrow> string list" where
  "bases_unicas df = sort (unique (map (\<lambda>(i, r). Base r) df))"

definition vars_unicas :: "drow frame \<Rightarrow> string list" where
  "vars_unicas df = sort (unique (map (\<lambda>(i, r). Variable r) df))"

text \<open>
  \<open>df[df[col_base].isin(bases_sel) & df[col_var].isin(vars_sel)].copy()\<close>: boolean-mask
  selection keeps the rows whose mask is true, with their labels, in order.
\<close>

definition isin :: "'a \<Rightarrow> 'a list \<Rightarrow> bool" where
  "isin x sel = (x \<in> set sel)"

definition df_filt :: "drow frame \<Rightarrow> string list \<Rightarrow> string list \<Rightarrow> drow frame" where
  "df_filt df bases_sel vars_sel =
     filter (\<lambda>(i, r). isin (Base r) bases_sel \<and> isin (Variable r) vars_sel) df"

subsection \<open>Section 5: KPIs (lines 89-123)\<close>

text \<open>Line 89: \<open>df_filt["Rango"] = df_filt[col_lsc] - df_filt[col_lic]\<close>.\<close>

definition recompute_rango :: "drow frame \<Rightarrow> drow frame" where
  "recompute_rango f = map (\<lambda>(i, r). (i, r\<lparr>Rango := LSC r - LIC r\<rparr>)) f"

text \<open>
  \<open>Series.idxmax()\<close> / \<open>idxmin()\<close>: the label of the first occurrence of the maximum
  (minimum); \<open>ValueError\<close> on an empty Series.  The scan keeps the best entry so far and
  replaces it only by a strictly better one.
\<close>

fun argbest :: "(real \<Rightarrow> real \<Rightarrow> bool) \<Rightarrow> nat \<times> real \<Rightarrow> (nat \<times> real) list \<Rightarrow> nat" where
  "argbest better (bi, bx) [] = bi"
| "argbest better (bi, bx) ((i, x) # s) =
     (if better x bx then argbest better (i, x) s else argbest better (bi, bx) s)"

definition idxmax :: "(nat \<times> real) list \<Rightarrow> error + nat" where
  "idxmax s = (case s of [] \<Rightarrow> Inl ValueError | p # ps \<Rightarrow> Inr (argbest (\<lambda>x b. b < x) p ps))"

definition idxmin :: "(nat \<times> real) list \<Rightarrow> error + nat" where
  "idxmin s = (case s of [] \<Rightarrow> Inl ValueError | p # ps \<Rightarrow> Inr (argbest (\<lambda>x b. x < b) p ps))"

text \<open>
  \<open>df.loc[label]\<close>: the row with that label; \<open>KeyError\<close> when no row has it.  When
  several rows share the label pandas returns a frame instead of a row, and formatting its
  cell as a number (lines 103-122) raises \<open>TypeError\<close>.
\<close>

definition loc :: "'r frame \<Rightarrow> nat \<Rightarrow> error + 'r" where
  "loc df l =
     (case filter (\<lambda>(i, r). i = l) df of
        [] \<Rightarrow> Inl KeyError
      | [(i, r)] \<Rightarrow> Inr r
      | _ \<Rightarrow> Inl TypeError)"

definition column :: "('r \<Rightarrow> 'a) \<Rightarrow> 'r frame \<Rightarrow> (nat \<times> 'a) list" where
  "column c df = map (\<lambda>(i, r). (i, c r)) df"

definition lic_max_row :: "drow frame \<Rightarrow> error + drow" where
  "lic_max_row f = (case idxmax (column LIC f) of Inl e \<Rightarrow> Inl e | Inr l \<Rightarrow> loc f l)"

definition lic_min_row :: "drow frame \<Rightarrow> error + drow" where
  "lic_min_row f = (case idxmin (column LIC f) of Inl e \<Rightarrow> Inl e | Inr l \<Rightarrow> loc f l)"

definition lsc_max_row :: "drow frame \<Rightarrow> error + drow" where
  "lsc_max_row f = (case idxmax (column LSC f) of Inl e \<Rightarrow> Inl e | Inr l \<Rightarrow> loc f l)"

definition lsc_min_row :: "drow frame \<Rightarrow> error + drow" where
  "lsc_min_row f = (case idxmin (column LSC f) of Inl e \<Rightarrow> Inl e | Inr l \<Rightarrow> loc f l)"

subsection \<open>Tab 1: LIC and LSC per variable for one base (lines 148-189)\<close>

text \<open>\<open>df_filt[df_filt[col_base] == base_seleccionada].copy()\<close>.\<close>

definition df_base :: "drow frame \<Rightarrow> string \<Rightarrow> drow frame" where
  "df_base f base_seleccionada = filter (\<lambda>(i, r). Base r = base_seleccionada) f"

text \<open>
  \<open>melt(id_vars=[col_var], value_vars=[col_lic, col_lsc])\<close>: one record
  (variable, limit kind, value) per row and value column, the \<open>LIC\<close> block first and the
  \<open>LSC\<close> block after it, each in row order; the result has a fresh index.
\<close>

definition melt :: "drow frame \<Rightarrow> (string \<times> string \<times> real) list" where
  "melt f =
     map (\<lambda>(i, r). (Variable r, ''LIC'', LIC r)) f @
     map (\<lambda>(i, r). (Variable r, ''LSC'', LSC r)) f"

subsection \<open>Tab 2: means per variable (lines 198-203)\<close>

text \<open>\<open>mean()\<close> of a group of cells; NaN, here \<open>None\<close>, when there is no cell.\<close>

definition mean :: "real list \<Rightarrow> real option" where
  "mean xs = (if xs = [] then None else Some (sum_list xs / real (length xs)))"

text \<open>
  \<open>df_filt.groupby(col_var)[[col_lsc, col_lic]].mean().reset_index().sort_values(col_var)\<close>:
  \<open>groupby\<close> makes one group per distinct key, the keys sorted; \<open>mean\<close> averages each
  selected column inside each group; \<open>reset_index\<close> turns the keys into a column; and
  \<open>sort_values\<close> sorts the rows by that column (the keys of the groups are distinct, so
  every sorting algorithm gives the same order).  A result row is
  (variable, mean LSC, mean LIC).
\<close>

definition groupby_var_mean :: "drow frame \<Rightarrow> (string \<times> real option \<times> real option) list" where
  "groupby_var_mean f =
     map (\<lambda>v. (v,
                mean (map (\<lambda>(i, r). LSC r) (filter (\<lambda>(i, r). Variable r = v) f)),
                mean (map (\<lambda>(i, r). LIC r) (filter (\<lambda>(i, r). Variable r = v) f))))
         (sort (unique (map (\<lambda>(i, r). Variable r) f)))"

definition df_vars :: "drow frame \<Rightarrow> (string \<times> real option \<times> real option) list" where
  "df_vars f = sort_key fst (groupby_var_mean f)"

subsection \<open>Tab 3: heatmap of the range (lines 276-281)\<close>

text \<open>
  A pivot table: the row labels, the column labels and the cells row by row; an empty cell
  (NaN) is \<open>None\<close>.
\<close>

record heat =
  h_index :: "string list"
  h_columns :: "string list"
  h_values :: "real option list list"

text \<open>
  \<open>df_filt.pivot_table(index=col_base, columns=col_var, values="Rango", aggfunc="mean")\<close>,
  with pandas' defaults (\<open>dropna=True\<close>, \<open>sort=True\<close>, no \<open>fill_value\<close>): the rows are
  grouped by the pair (base, variable), the keys sorted; the mean of \<open>Rango\<close> is taken in
  each group; groups whose mean is NaN are dropped; the variable level is unstacked into
  columns, a pair without a group giving an empty cell; the columns are sorted; and columns
  with no filled cell are dropped.
\<close>

definition agged :: "drow frame \<Rightarrow> ((string \<times> string) \<times> real option) list" where
  "agged f =
     filter (\<lambda>(k, m). m \<noteq> None)
       (map (\<lambda>k. (k, mean (map (\<lambda>(i, r). Rango r)
                              (filter (\<lambda>(i, r). (Base r, Variable r) = k) f))))
            (sort (unique (map (\<lambda>(i, r). (Base r, Variable r)) f))))"

definition unstacked :: "((string \<times> string) \<times> real option) list \<Rightarrow> string \<Rightarrow> string \<Rightarrow> real option" where
  "unstacked ag b v = (case map_of ag (b, v) of None \<Rightarrow> None | Some m \<Rightarrow> m)"

definition df_heat :: "drow frame \<Rightarrow> heat" where
  "df_heat f =
     (let ag = agged f;
          idx = sort (unique (map (\<lambda>((b, v), m). b) ag));
          cols = sort (unique (map (\<lambda>((b, v), m). v) ag));
          cols' = filter (\<lambda>v. list_ex (\<lambda>b. unstacked ag b v \<noteq> None) idx) cols
      in \<lparr>h_index = idx, h_columns = cols',
          h_values = map (\<lambda>b. map (\<lambda>v. unstacked ag b v) cols') idx\<rparr>)"

subsection \<open>The script as a whole\<close>

text \<open>
  What one run of the script shows, in order: the notices, the four KPI metrics (label,
  value, base, variable; the two-decimal formatting of the value is not modelled) and the
  charts with the tables handed to them.  The static texts (title, headers, tab names) are
  left out, and the metric labels are written without their accents.
\<close>

datatype event =
    Warning_no_data
  | Stop
  | Metric string real string string
  | Write_base string
  | Warning_base_empty
  | Bar_limits "(string \<times> string \<times> real) list"
  | Info_one_base
  | Line_detalle "(string \<times> real option \<times> real option) list"
  | Bar_lic "(string \<times> real option \<times> real option) list"
  | Bar_lsc "(string \<times> real option \<times> real option) list"
  | Dataframe "(nat \<times> string \<times> string \<times> real \<times> real \<times> real \<times> real) list"
  | Heatmap heat

definition kpis :: "drow frame \<Rightarrow> error + event list" where
  "kpis f =
     (case lic_max_row f of Inl e \<Rightarrow> Inl e | Inr lic_max \<Rightarrow>
      case lic_min_row f of Inl e \<Rightarrow> Inl e | Inr lic_min \<Rightarrow>
      case lsc_max_row f of Inl e \<Rightarrow> Inl e | Inr lsc_max \<Rightarrow>
      case lsc_min_row f of Inl e \<Rightarrow> Inl e | Inr lsc_min \<Rightarrow>
        Inr [Metric ''LIC maximo'' (LIC lic_max) (Base lic_max) (Variable lic_max),
             Metric ''LIC minimo'' (LIC lic_min) (Base lic_min) (Variable lic_min),
             Metric ''LSC maximo'' (LSC lsc_max) (Base lsc_max) (Variable lsc_max),
             Metric ''LSC minimo'' (LSC lsc_min) (Base lsc_min) (Variable lsc_min)])"

definition tab1 :: "string list \<Rightarrow> drow frame \<Rightarrow> event list" where
  "tab1 bases_sel f =
     (if length bases_sel = 1 then
        (let base_seleccionada = bases_sel ! 0;
             fb = df_base f base_seleccionada
         in Write_base base_seleccionada #
            (if fb = [] then [Warning_base_empty] else [Bar_limits (melt fb)]))
      else [Info_one_base])"

definition tab2 :: "drow frame \<Rightarrow> event list" where
  "tab2 f =
     (let dv = df_vars f
      in [Line_detalle dv, Bar_lic dv, Bar_lsc dv,
          Dataframe (map (\<lambda>(i, r). (i, Base r, Variable r, LIC r, LSC r, Rango r, Centro r)) f)])"

definition tab3 :: "drow frame \<Rightarrow> event list" where
  "tab3 f = [Heatmap (df_heat f)]"

text \<open>
  One run: the file's rows and the two sidebar selections in, the events out, or the
  exception that ends the run.  A selection is the list the multiselect widget returns:
  it has no repetitions, so its length is the number of selected values.  \<open>st.stop()\<close> ends
  the run: nothing after line 81 is executed when the filtered table is empty.
\<close>

definition dashboard :: "row list \<Rightarrow> string list \<Rightarrow> string list \<Rightarrow> error + event list" where
  "dashboard rows bases_sel vars_sel =
     (let df = derivation (load_data rows);
          flt = df_filt df bases_sel vars_sel
      in if flt = [] then Inr [Warning_no_data, Stop]
         else
           (let f = recompute_rango flt
            in case kpis f of
                 Inl e \<Rightarrow> Inl e
               | Inr ms \<Rightarrow> Inr (ms @ tab1 bases_sel f @ tab2 f @ tab3 f)))"

text \<open>The events of the KPI row and of tabs 2 and 3: none is a notice or the bar chart.\<close>

definition plain :: "event \<Rightarrow> bool" where
  "plain e = (case e of
       Metric l x b v \<Rightarrow> True | Line_detalle t \<Rightarrow> True | Bar_lic t \<Rightarrow> True
     | Bar_lsc t \<Rightarrow> True | Dataframe t \<Rightarrow> True | Heatmap h \<Rightarrow> True | _ \<Rightarrow> False)"

subsection \<open>Example tables\<close>

text \<open>Two bases measuring the same variable.\<close>

definition example_means :: "row list" where
  "example_means =
     [\<lparr>Base = ''A'', Variable = ''X'', LIC = 10, LSC = 20, passthrough = []\<rparr>,
      \<lparr>Base = ''B'', Variable = ''X'', LIC = 14, LSC = 22, passthrough = []\<rparr>]"

text \<open>Two rows that share the largest \<open>LIC\<close>, and the smallest \<open>LSC\<close>.\<close>

definition example_tie :: "row list" where
  "example_tie =
     [\<lparr>Base = ''A'', Variable = ''X'', LIC = 10, LSC = 30, passthrough = []\<rparr>,
      \<lparr>Base = ''B'', Variable = ''Y'', LIC = 10, LSC = 30, passthrough = []\<rparr>,
      \<lparr>Base = ''B'', Variable = ''X'', LIC = 7, LSC = 35, passthrough = [(''Turno'', ''2'')]\<rparr>]"

text \<open>Three of the four (base, variable) pairs, out of order, one pair measured twice.\<close>

definition example_grid :: "row list" where
  "example_grid =
     [\<lparr>Base = ''B'', Variable = ''Y'', LIC = 1, LSC = 4, passthrough = []\<rparr>,
      \<lparr>Base = ''A'', Variable = ''X'', LIC = 10, LSC = 20, passthrough = []\<rparr>,
      \<lparr>Base = ''B'', Variable = ''X'', LIC = 14, LSC = 22, passthrough = []\<rparr>,
      \<lparr>Base = ''B'', Variable = ''Y'', LIC = 2, LSC = 7, passthrough = []\<rparr>]"

section \<open>Auxiliary facts\<close>

subsection \<open>Distinct values\<close>

lemma set_unique: "set (unique xs) = set xs"
proof (induction xs rule: unique.induct)
  case 1
  show ?case by simp
next
  case (2 x xs)
  then show ?case by auto
qed

lemma distinct_unique: "distinct (unique xs)"
proof (induction xs rule: unique.induct)
  case 1
  show ?case by simp
next
  case (2 x xs)
  then show ?case by (simp add: set_unique)
qed

lemma sort_unique: "sort (unique xs) = sort (remdups xs)"
  by (rule sorted_distinct_set_unique) (simp_all add: set_unique distinct_unique)

subsection \<open>The filter and values outside the table\<close>

lemma df_filt_Cons_base:
  assumes "b \<notin> set (bases_unicas df)"
  shows "df_filt df (b # bases_sel) vars_sel = df_filt df bases_sel vars_sel"
proof -
  have "\<And>i r. (i, r) \<in> set df \<Longrightarrow> Base r \<noteq> b"
    using assms by (force simp: bases_unicas_def set_unique)
  then show ?thesis
    unfolding df_filt_def isin_def by (intro filter_cong) auto
qed

lemma df_filt_Cons_var:
  assumes "v \<notin> set (vars_unicas df)"
  shows "df_filt df bases_sel (v # vars_sel) = df_filt df bases_sel vars_sel"
proof -
  have "\<And>i r. (i, r) \<in> set df \<Longrightarrow> Variable r \<noteq> v"
    using assms by (force simp: vars_unicas_def set_unique)
  then show ?thesis
    unfolding df_filt_def isin_def by (intro filter_cong) auto
qed

subsection \<open>Index labels\<close>

lemma labels_load_data: "map fst (load_data rows) = [0..<length rows]"
  by (simp add: load_data_def)

lemma labels_derivation: "map fst (derivation df) = map fst df"
  by (induction df) (auto simp: derivation_def)

lemma labels_recompute_rango: "map fst (recompute_rango f) = map fst f"
  by (induction f) (auto simp: recompute_rango_def)

lemma labels_df_filt:
  "distinct (map fst df) \<Longrightarrow> distinct (map fst (df_filt df bases_sel vars_sel))"
  by (simp add: df_filt_def distinct_map_filter)

lemma labels_filtered_view:
  "distinct (map fst (recompute_rango (df_filt (derivation (load_data rows)) bases_sel vars_sel)))"
  by (simp add: labels_recompute_rango labels_df_filt labels_derivation labels_load_data)

lemma filter_label:
  assumes "distinct (map fst df)" and "(l, r) \<in> set df"
  shows "filter (\<lambda>(i, r). i = l) df = [(l, r)]"
  using assms
proof (induction df)
  case Nil
  then show ?case by simp
next
  case (Cons a df)
  obtain j q where a: "a = (j, q)" by (cases a)
  have fresh: "\<forall>x\<in>set df. fst x \<noteq> j" using Cons.prems(1) a by (auto simp: image_iff)
  show ?case
  proof (cases "(l, r) = a")
    case True
    then have "\<forall>x\<in>set df. \<not> (case x of (i, r) \<Rightarrow> i = l)" using fresh a by auto
    then have "filter (\<lambda>(i, r). i = l) df = []" by (simp add: filter_empty_conv)
    then show ?thesis using True a by simp
  next
    case False
    then have mem: "(l, r) \<in> set df" using Cons.prems(2) by simp
    then have "j \<noteq> l" using fresh by fastforce
    then show ?thesis using Cons.IH mem Cons.prems(1) a by simp
  qed
qed

lemma loc_distinct:
  assumes "distinct (map fst df)" and "k < length df"
  shows "loc df (fst (df ! k)) = Inr (snd (df ! k))"
proof -
  have "(fst (df ! k), snd (df ! k)) \<in> set df" using assms(2) by simp
  from filter_label[OF assms(1) this] show ?thesis
    by (simp add: loc_def split: prod.split)
qed

subsection \<open>The scan for the first extreme value\<close>

text \<open>
  The scan's invariant: the entry it holds is the first maximum of what it has read.  Read
  \<open>xs\<close>, holding \<open>xs ! k\<close>; after the rest \<open>s\<close> it holds the first maximum of \<open>xs @ s\<close>.
\<close>

lemma argbest_first_max:
  assumes "k < length xs"
    and "\<forall>j<length xs. snd (xs ! j) \<le> snd (xs ! k)"
    and "\<forall>j<k. snd (xs ! j) < snd (xs ! k)"
  shows "\<exists>m<length (xs @ s). argbest (\<lambda>x b. b < x) (xs ! k) s = fst ((xs @ s) ! m)
           \<and> (\<forall>j<length (xs @ s). snd ((xs @ s) ! j) \<le> snd ((xs @ s) ! m))
           \<and> (\<forall>j<m. snd ((xs @ s) ! j) < snd ((xs @ s) ! m))"
  using assms
proof (induction s arbitrary: xs k)
  case Nil
  obtain bi bx where b: "xs ! k = (bi, bx)" by (cases "xs ! k")
  show ?case using Nil b by auto
next
  case (Cons p s)
  obtain i x where p: "p = (i, x)" by (cases p)
  obtain bi bx where b: "xs ! k = (bi, bx)" by (cases "xs ! k")
  let ?ys = "xs @ [(i, x)]"
  show ?case
  proof (cases "bx < x")
    case True
    have 1: "length xs < length ?ys" by simp
    have 2: "\<forall>j<length ?ys. snd (?ys ! j) \<le> snd (?ys ! length xs)"
      using Cons.prems b True
      by (auto simp: nth_append less_Suc_eq intro: order_trans less_imp_le)
    have 3: "\<forall>j<length xs. snd (?ys ! j) < snd (?ys ! length xs)"
      using Cons.prems b True by (auto simp: nth_append intro: le_less_trans)
    from Cons.IH[OF 1 2 3] show ?thesis using p b True by simp
  next
    case False
    have 1: "k < length ?ys" using Cons.prems by simp
    have 2: "\<forall>j<length ?ys. snd (?ys ! j) \<le> snd (?ys ! k)"
      using Cons.prems b False by (auto simp: nth_append less_Suc_eq)
    have 3: "\<forall>j<k. snd (?ys ! j) < snd (?ys ! k)"
      using Cons.prems b False by (auto simp: nth_append)
    have "?ys ! k = (bi, bx)" using Cons.prems b by (simp add: nth_append)
    with Cons.IH[OF 1 2 3] show ?thesis using p b False by simp
  qed
qed

lemma idxmax_first:
  assumes "s \<noteq> []"
  shows "\<exists>m<length s. idxmax s = Inr (fst (s ! m))
           \<and> (\<forall>j<length s. snd (s ! j) \<le> snd (s ! m))
           \<and> (\<forall>j<m. snd (s ! j) < snd (s ! m))"
proof -
  obtain p ps where s: "s = p # ps" using assms by (cases s) auto
  have "\<exists>m<length ([p] @ ps). argbest (\<lambda>x b. b < x) ([p] ! 0) ps = fst (([p] @ ps) ! m)
           \<and> (\<forall>j<length ([p] @ ps). snd (([p] @ ps) ! j) \<le> snd (([p] @ ps) ! m))
           \<and> (\<forall>j<m. snd (([p] @ ps) ! j) < snd (([p] @ ps) ! m))"
    by (rule argbest_first_max) simp_all
  then show ?thesis by (simp add: s idxmax_def)
qed

text \<open>The scan for the minimum is the scan for the maximum of the negated values.\<close>

lemma argbest_min_neg:
  "argbest (\<lambda>x b. x < b) p s
     = argbest (\<lambda>x b. b < x) (fst p, - snd p) (map (\<lambda>q. (fst q, - snd q)) s)"
proof (induction s arbitrary: p)
  case Nil
  show ?case by (cases p) simp
next
  case (Cons q s)
  show ?case using Cons.IH by (cases p; cases q) simp
qed

lemma idxmin_first:
  assumes "s \<noteq> []"
  shows "\<exists>m<length s. idxmin s = Inr (fst (s ! m))
           \<and> (\<forall>j<length s. snd (s ! m) \<le> snd (s ! j))
           \<and> (\<forall>j<m. snd (s ! m) < snd (s ! j))"
proof -
  let ?n = "map (\<lambda>q. (fst q, - snd q)) s"
  have ne: "?n \<noteq> []" using assms by simp
  have eq: "idxmin s = idxmax ?n"
    by (cases s) (simp_all add: idxmin_def idxmax_def argbest_min_neg)
  from idxmax_first[OF ne] show ?thesis
    unfolding eq by auto
qed

lemma column_nth: "k < length f \<Longrightarrow> column c f ! k = (fst (f ! k), c (snd (f ! k)))"
  by (simp add: column_def case_prod_beta)

lemma first_max_row:
  assumes "distinct (map fst f)" and "f \<noteq> []"
  shows "\<exists>k<length f.
           (case idxmax (column c f) of Inl e \<Rightarrow> Inl e | Inr l \<Rightarrow> loc f l) = Inr (snd (f ! k))
           \<and> (\<forall>j<length f. c (snd (f ! j)) \<le> c (snd (f ! k)))
           \<and> (\<forall>j<k. c (snd (f ! j)) < c (snd (f ! k)))"
proof -
  have ne: "column c f \<noteq> []" using assms(2) by (simp add: column_def)
  have len: "length (column c f) = length f" by (simp add: column_def)
  from idxmax_first[OF ne] obtain m where m: "m < length f"
    "idxmax (column c f) = Inr (fst (column c f ! m))"
    "\<forall>j<length f. snd (column c f ! j) \<le> snd (column c f ! m)"
    "\<forall>j<m. snd (column c f ! j) < snd (column c f ! m)"
    unfolding len by blast
  have "loc f (fst (f ! m)) = Inr (snd (f ! m))" using assms(1) m(1) by (rule loc_distinct)
  then show ?thesis using m by (auto simp: column_nth intro!: exI[of _ m])
qed

lemma first_min_row:
  assumes "distinct (map fst f)" and "f \<noteq> []"
  shows "\<exists>k<length f.
           (case idxmin (column c f) of Inl e \<Rightarrow> Inl e | Inr l \<Rightarrow> loc f l) = Inr (snd (f ! k))
           \<and> (\<forall>j<length f. c (snd (f ! k)) \<le> c (snd (f ! j)))
           \<and> (\<forall>j<k. c (snd (f ! k)) < c (snd (f ! j)))"
proof -
  have ne: "column c f \<noteq> []" using assms(2) by (simp add: column_def)
  have len: "length (column c f) = length f" by (simp add: column_def)
  from idxmin_first[OF ne] obtain m where m: "m < length f"
    "idxmin (column c f) = Inr (fst (column c f ! m))"
    "\<forall>j<length f. snd (column c f ! m) \<le> snd (column c f ! j)"
    "\<forall>j<m. snd (column c f ! m) < snd (column c f ! j)"
    unfolding len by blast
  have "loc f (fst (f ! m)) = Inr (snd (f ! m))" using assms(1) m(1) by (rule loc_distinct)
  then show ?thesis using m by (auto simp: column_nth intro!: exI[of _ m])
qed

subsection \<open>Groups and their means\<close>

lemma sort_unique_set:
  assumes "set xs = set ys"
  shows "sort (unique xs) = sort (remdups ys)"
  by (rule sorted_distinct_set_unique) (simp_all add: set_unique distinct_unique assms)

lemma mean_nonempty:
  "xs \<noteq> [] \<Longrightarrow> mean xs = Some (sum_list xs / real (length xs))"
  by (simp add: mean_def)

lemma group_nonempty:
  assumes "k \<in> key ` set f"
  shows "filter (\<lambda>x. key x = k) f \<noteq> []"
  using assms by (auto simp: filter_empty_conv)

lemma group_empty:
  assumes "k \<notin> key ` set f"
  shows "filter (\<lambda>x. key x = k) f = []"
  using assms by (auto simp: filter_empty_conv)

lemma key_pred: "(\<lambda>x. (case x of (i, r) \<Rightarrow> g i r) = k) = (\<lambda>(i, r). g i r = k)"
  by (auto simp: fun_eq_iff)

lemma groupby_var_mean_keys:
  "map fst (groupby_var_mean f) = sort (unique (map (\<lambda>(i, r). Variable r) f))"
  by (simp add: groupby_var_mean_def comp_def)

lemma df_vars_groupby: "df_vars f = groupby_var_mean f"
  unfolding df_vars_def
  by (rule sort_key_id_if_sorted) (simp add: groupby_var_mean_keys)

lemma df_vars_keys:
  "map fst (df_vars f) = sort (remdups (map (\<lambda>(i, r). Variable r) f))"
  by (simp add: df_vars_groupby groupby_var_mean_keys sort_unique)

lemma df_vars_entry:
  assumes "(v, mlsc, mlic) \<in> set (df_vars f)"
  shows "filter (\<lambda>(i, r). Variable r = v) f \<noteq> []
       \<and> mlsc = Some (sum_list (map (\<lambda>(i, r). LSC r) (filter (\<lambda>(i, r). Variable r = v) f))
                      / real (length (filter (\<lambda>(i, r). Variable r = v) f)))
       \<and> mlic = Some (sum_list (map (\<lambda>(i, r). LIC r) (filter (\<lambda>(i, r). Variable r = v) f))
                      / real (length (filter (\<lambda>(i, r). Variable r = v) f)))"
proof -
  let ?g = "filter (\<lambda>(i, r). Variable r = v) f"
  from assms have v: "v \<in> (\<lambda>(i, r). Variable r) ` set f"
    and m: "mlsc = mean (map (\<lambda>(i, r). LSC r) ?g)" "mlic = mean (map (\<lambda>(i, r). LIC r) ?g)"
    by (auto simp: df_vars_groupby groupby_var_mean_def set_unique)
  have "filter (\<lambda>x. (case x of (i, r) \<Rightarrow> Variable r) = v) f \<noteq> []"
    using v by (rule group_nonempty)
  then have ne: "?g \<noteq> []" unfolding key_pred .
  then show ?thesis using m by (simp add: mean_nonempty)
qed

subsection \<open>The pivot table\<close>

text \<open>Every key of the grouping has a row, so no group's mean is NaN and none is dropped.\<close>

lemma agged_all:
  "agged f =
     map (\<lambda>k. (k, mean (map (\<lambda>(i, r). Rango r)
                            (filter (\<lambda>(i, r). (Base r, Variable r) = k) f))))
         (sort (unique (map (\<lambda>(i, r). (Base r, Variable r)) f)))"
proof -
  have "mean (map (\<lambda>(i, r). Rango r) (filter (\<lambda>(i, r). (Base r, Variable r) = k) f)) \<noteq> None"
    if "k \<in> set (sort (unique (map (\<lambda>(i, r). (Base r, Variable r)) f)))" for k
  proof -
    from that have "k \<in> (\<lambda>(i, r). (Base r, Variable r)) ` set f"
      by (simp add: set_unique)
    then have "filter (\<lambda>x. (case x of (i, r) \<Rightarrow> (Base r, Variable r)) = k) f \<noteq> []"
      by (rule group_nonempty)
    then have "filter (\<lambda>(i, r). (Base r, Variable r) = k) f \<noteq> []"
      unfolding key_pred .
    then show ?thesis by (simp add: mean_def)
  qed
  then show ?thesis
    unfolding agged_def by (intro filter_True) auto
qed

lemma agged_bases:
  "set (map (\<lambda>((b, v), m). b) (agged f)) = set (map (\<lambda>(i, r). Base r) f)"
  by (force simp: agged_all set_unique)

lemma agged_vars:
  "set (map (\<lambda>((b, v), m). v) (agged f)) = set (map (\<lambda>(i, r). Variable r) f)"
  by (force simp: agged_all set_unique)

lemma unstacked_agged:
  "unstacked (agged f) b v =
     mean (map (\<lambda>(i, r). Rango r) (filter (\<lambda>(i, r). Base r = b \<and> Variable r = v) f))"
proof -
  let ?keys = "sort (unique (map (\<lambda>(i, r). (Base r, Variable r)) f))"
  let ?m = "\<lambda>k. mean (map (\<lambda>(i, r). Rango r) (filter (\<lambda>(i, r). (Base r, Variable r) = k) f))"
  have look: "map_of (agged f) (b, v) = (if (b, v) \<in> set ?keys then Some (?m (b, v)) else None)"
    unfolding agged_all by (simp add: map_of_map_restrict restrict_map_def)
  show ?thesis
  proof (cases "(b, v) \<in> set ?keys")
    case True
    then show ?thesis by (simp add: unstacked_def look)
  next
    case False
    then have "(b, v) \<notin> (\<lambda>(i, r). (Base r, Variable r)) ` set f"
      by (simp add: set_unique)
    then have "filter (\<lambda>x. (case x of (i, r) \<Rightarrow> (Base r, Variable r)) = (b, v)) f = []"
      by (rule group_empty)
    then have "filter (\<lambda>(i, r). (Base r, Variable r) = (b, v)) f = []"
      unfolding key_pred .
    then have "filter (\<lambda>(i, r). Base r = b \<and> Variable r = v) f = []" by simp
    then show ?thesis using False by (simp add: unstacked_def look mean_def)
  qed
qed

text \<open>Every variable of the table has a filled cell, so no column is dropped.\<close>

lemma column_filled:
  assumes "v \<in> set (map (\<lambda>(i, r). Variable r) f)"
  shows "\<exists>b \<in> set (map (\<lambda>(i, r). Base r) f). unstacked (agged f) b v \<noteq> None"
proof -
  from assms obtain i r where ir: "(i, r) \<in> set f" "Variable r = v" by auto
  have "(i, r) \<in> set (filter (\<lambda>(i, q). Base q = Base r \<and> Variable q = v) f)"
    using ir by simp
  then have "filter (\<lambda>(i, q). Base q = Base r \<and> Variable q = v) f \<noteq> []"
    by (metis empty_iff list.set(1))
  then have "unstacked (agged f) (Base r) v \<noteq> None"
    by (simp add: unstacked_agged mean_def)
  moreover have "Base r \<in> set (map (\<lambda>(i, r). Base r) f)" using ir(1) by force
  ultimately show ?thesis by blast
qed

lemma df_heat_parts:
  "h_index (df_heat f) = sort (remdups (map (\<lambda>(i, r). Base r) f))"
  "h_columns (df_heat f) = sort (remdups (map (\<lambda>(i, r). Variable r) f))"
  "h_values (df_heat f) =
     map (\<lambda>b. map (\<lambda>v. unstacked (agged f) b v) (h_columns (df_heat f))) (h_index (df_heat f))"
proof -
  have idx: "sort (unique (map (\<lambda>((b, v), m). b) (agged f)))
       = sort (remdups (map (\<lambda>(i, r). Base r) f))"
    by (rule sort_unique_set) (rule agged_bases)
  have cols: "sort (unique (map (\<lambda>((b, v), m). v) (agged f)))
       = sort (remdups (map (\<lambda>(i, r). Variable r) f))"
    by (rule sort_unique_set) (rule agged_vars)
  have keep: "filter (\<lambda>v. list_ex (\<lambda>b. unstacked (agged f) b v \<noteq> None)
                  (sort (remdups (map (\<lambda>(i, r). Base r) f))))
         (sort (remdups (map (\<lambda>(i, r). Variable r) f)))
       = sort (remdups (map (\<lambda>(i, r). Variable r) f))"
  proof (rule filter_True, rule ballI)
    fix v assume "v \<in> set (sort (remdups (map (\<lambda>(i, r). Variable r) f)))"
    then have "v \<in> set (map (\<lambda>(i, r). Variable r) f)" by simp
    from column_filled[OF this]
    show "list_ex (\<lambda>b. unstacked (agged f) b v \<noteq> None)
            (sort (remdups (map (\<lambda>(i, r). Base r) f)))"
      by (simp add: list_ex_iff)
  qed
  show "h_index (df_heat f) = sort (remdups (map (\<lambda>(i, r). Base r) f))"
    by (simp add: df_heat_def Let_def idx)
  show "h_columns (df_heat f) = sort (remdups (map (\<lambda>(i, r). Variable r) f))"
    unfolding df_heat_def Let_def idx cols keep by simp
  show "h_values (df_heat f) =
     map (\<lambda>b. map (\<lambda>v. unstacked (agged f) b v) (h_columns (df_heat f))) (h_index (df_heat f))"
    by (simp add: df_heat_def Let_def)
qed

subsection \<open>The run of the script\<close>

lemma recompute_rango_empty: "recompute_rango f = [] \<longleftrightarrow> f = []"
  by (simp add: recompute_rango_def)

lemma kpis_metrics:
  assumes "distinct (map fst f)" and "f \<noteq> []"
  shows "\<exists>a b c d. lic_max_row f = Inr a \<and> lic_min_row f = Inr b
            \<and> lsc_max_row f = Inr c \<and> lsc_min_row f = Inr d
            \<and> kpis f = Inr [Metric ''LIC maximo'' (LIC a) (Base a) (Variable a),
                             Metric ''LIC minimo'' (LIC b) (Base b) (Variable b),
                             Metric ''LSC maximo'' (LSC c) (Base c) (Variable c),
                             Metric ''LSC minimo'' (LSC d) (Base d) (Variable d)]"
proof -
  from first_max_row[OF assms, of LIC] obtain a where a: "lic_max_row f = Inr a"
    unfolding lic_max_row_def by blast
  from first_min_row[OF assms, of LIC] obtain b where b: "lic_min_row f = Inr b"
    unfolding lic_min_row_def by blast
  from first_max_row[OF assms, of LSC] obtain c where c: "lsc_max_row f = Inr c"
    unfolding lsc_max_row_def by blast
  from first_min_row[OF assms, of LSC] obtain d where d: "lsc_min_row f = Inr d"
    unfolding lsc_min_row_def by blast
  have "kpis f = Inr [Metric ''LIC maximo'' (LIC a) (Base a) (Variable a),
                      Metric ''LIC minimo'' (LIC b) (Base b) (Variable b),
                      Metric ''LSC maximo'' (LSC c) (Base c) (Variable c),
                      Metric ''LSC minimo'' (LSC d) (Base d) (Variable d)]"
    by (simp add: kpis_def a b c d)
  then show ?thesis using a b c d by blast
qed

lemma plain_simps [simp]:
  "\<not> plain Warning_no_data" "\<not> plain Stop" "\<not> plain Warning_base_empty"
  "\<not> plain Info_one_base" "\<not> plain (Bar_limits m)" "\<not> plain (Write_base s)"
  by (simp_all add: plain_def)

lemma plain_tab2: "list_all plain (tab2 f)"
  by (simp add: tab2_def plain_def Let_def)

lemma plain_tab3: "list_all plain (tab3 f)"
  by (simp add: tab3_def plain_def)

lemma plain_not_mem:
  assumes "list_all plain es" and "\<not> plain e"
  shows "e \<notin> set es"
  using assms by (auto simp: list_all_iff)

lemma dashboard_empty:
  assumes "df_filt (derivation (load_data rows)) bases_sel vars_sel = []"
  shows "dashboard rows bases_sel vars_sel = Inr [Warning_no_data, Stop]"
  using assms by (simp add: dashboard_def)

lemma dashboard_nonempty:
  assumes "f = recompute_rango (df_filt (derivation (load_data rows)) bases_sel vars_sel)"
    and "f \<noteq> []"
  shows "\<exists>ms. kpis f = Inr ms \<and> list_all plain ms
           \<and> dashboard rows bases_sel vars_sel = Inr (ms @ tab1 bases_sel f @ tab2 f @ tab3 f)"
proof -
  have d: "distinct (map fst f)" unfolding assms(1) by (rule labels_filtered_view)
  from kpis_metrics[OF d assms(2)] obtain ms where ms: "kpis f = Inr ms" "list_all plain ms"
    by (auto simp: plain_def)
  have "df_filt (derivation (load_data rows)) bases_sel vars_sel \<noteq> []"
    using assms by (simp add: recompute_rango_empty)
  then have "dashboard rows bases_sel vars_sel = Inr (ms @ tab1 bases_sel f @ tab2 f @ tab3 f)"
    using ms(1) by (simp add: dashboard_def Let_def assms(1))
  then show ?thesis using ms by blast
qed

text \<open>With one base selected, every row of the filtered table has that base.\<close>

lemma df_base_whole:
  assumes "length bases_sel = 1"
  shows "df_base (recompute_rango (df_filt df bases_sel vars_sel)) (bases_sel ! 0)
           = recompute_rango (df_filt df bases_sel vars_sel)"
proof -
  obtain b where b: "bases_sel = [b]"
    using assms by (cases bases_sel) auto
  show ?thesis
    unfolding df_base_def
    by (rule filter_True) (auto simp: b recompute_rango_def df_filt_def isin_def)
qed

lemma tab1_one_base:
  assumes "length bases_sel = 1"
    and "f = recompute_rango (df_filt df bases_sel vars_sel)" and "f \<noteq> []"
  shows "tab1 bases_sel f = [Write_base (bases_sel ! 0), Bar_limits (melt f)]"
  using assms df_base_whole[OF assms(1), of df vars_sel] by (simp add: tab1_def Let_def)

lemma tab1_other: "length bases_sel \<noteq> 1 \<Longrightarrow> tab1 bases_sel f = [Info_one_base]"
  by (simp add: tab1_def)

lemma df_filt_no_base: "df_filt df [] vars_sel = []"
  by (simp add: df_filt_def isin_def)

section \<open>The claims\<close>

text \<open>
  C1 (filter correctness).  For every table and every pair of selections, the filtered
  table holds exactly the rows whose base is among the selected bases and whose variable is
  among the selected variables: as a set it is that part of the table, and every row
  occurs in it as often as in the table when it matches and not at all otherwise, so no
  row is dropped or duplicated.  A selected base or variable that is not among the table's
  distinct values matches no row: adding it to the selection leaves the result unchanged.
\<close>

theorem df_filt_exact:
  "set (df_filt df bases_sel vars_sel) =
     {(i, r). (i, r) \<in> set df \<and> Base r \<in> set bases_sel \<and> Variable r \<in> set vars_sel}
   \<and> (\<forall>x. count (mset (df_filt df bases_sel vars_sel)) x =
          (if Base (snd x) \<in> set bases_sel \<and> Variable (snd x) \<in> set vars_sel
           then count (mset df) x else 0))
   \<and> (b \<notin> set (bases_unicas df) \<longrightarrow>
          df_filt df (b # bases_sel) vars_sel = df_filt df bases_sel vars_sel)
   \<and> (v \<notin> set (vars_unicas df) \<longrightarrow>
          df_filt df bases_sel (v # vars_sel) = df_filt df bases_sel vars_sel)"
proof (intro conjI allI impI)
  show "set (df_filt df bases_sel vars_sel) =
     {(i, r). (i, r) \<in> set df \<and> Base r \<in> set bases_sel \<and> Variable r \<in> set vars_sel}"
    by (auto simp: df_filt_def isin_def)
next
  fix x
  show "count (mset (df_filt df bases_sel vars_sel)) x =
          (if Base (snd x) \<in> set bases_sel \<and> Variable (snd x) \<in> set vars_sel
           then count (mset df) x else 0)"
    by (cases x) (simp add: df_filt_def isin_def)
next
  assume "b \<notin> set (bases_unicas df)"
  then show "df_filt df (b # bases_sel) vars_sel = df_filt df bases_sel vars_sel"
    by (rule df_filt_Cons_base)
next
  assume "v \<notin> set (vars_unicas df)"
  then show "df_filt df bases_sel (v # vars_sel) = df_filt df bases_sel vars_sel"
    by (rule df_filt_Cons_var)
qed

theorem df_filt_exact_witness:
  "''C'' \<notin> set (bases_unicas (derivation (load_data example_grid)))
   \<and> df_filt (derivation (load_data example_grid)) [''C'', ''B''] [''Y'']
       = df_filt (derivation (load_data example_grid)) [''B''] [''Y'']
   \<and> ''Z'' \<notin> set (vars_unicas (derivation (load_data example_grid)))
   \<and> df_filt (derivation (load_data example_grid)) [''B''] [''Z'', ''Y'']
       = df_filt (derivation (load_data example_grid)) [''B''] [''Y'']
   \<and> map fst (df_filt (derivation (load_data example_grid)) [''B''] [''Y'']) = [0, 3]"
  using df_filt_exact [of "derivation (load_data example_grid)" "[''B'']" "[''Y'']" "''C''" "''Z''"]
  by (simp add: bases_unicas_def vars_unicas_def derivation_def load_data_def example_grid_def
      derive_row_def df_filt_def isin_def)

text \<open>
  C2 (round-trip arithmetic).  In every filtered view of the table, both as the filter leaves
  it (line 77) and after line 89 has recomputed \<open>Rango\<close>, every row has
  \<open>Rango = LSC - LIC\<close> and \<open>Centro = (LSC + LIC) / 2\<close>.
\<close>

theorem derived_columns_exact:
  "\<forall>(i, r) \<in> set (df_filt (derivation df) bases_sel vars_sel)
              \<union> set (recompute_rango (df_filt (derivation df) bases_sel vars_sel)).
     Rango r = LSC r - LIC r \<and> Centro r = (LSC r + LIC r) / 2"
  by (auto simp: df_filt_def derivation_def recompute_rango_def derive_row_def)

theorem derived_columns_exact_witness:
  "(3, \<lparr>Base = ''B'', Variable = ''Y'', LIC = 2, LSC = 7, passthrough = [],
        Rango = 5, Centro = 9 / 2\<rparr>)
     \<in> set (df_filt (derivation (load_data example_grid)) [''B''] [''Y''])
         \<union> set (recompute_rango (df_filt (derivation (load_data example_grid)) [''B''] [''Y'']))
   \<and> Rango \<lparr>Base = ''B'', Variable = ''Y'', LIC = 2, LSC = 7, passthrough = [],
        Rango = 5, Centro = 9 / 2\<rparr> = 7 - 2
   \<and> Centro \<lparr>Base = ''B'', Variable = ''Y'', LIC = 2, LSC = 7, passthrough = [],
        Rango = 5, Centro = 9 / 2\<rparr> = (7 + 2) / 2"
  using derived_columns_exact [of "load_data example_grid" "[''B'']" "[''Y'']"]
  by (simp add: derivation_def load_data_def example_grid_def
      derive_row_def df_filt_def isin_def recompute_rango_def)

text \<open>
  C3 (empty selection).  When no row of the file has its base among the selected bases and
  its variable among the selected variables, the filtered table is empty and the run
  consists of the no-data warning and the stop, in that order: no KPI, no table of means,
  no heatmap is computed or shown.
\<close>

theorem empty_selection_stops:
  assumes "\<forall>r \<in> set rows. \<not> (Base r \<in> set bases_sel \<and> Variable r \<in> set vars_sel)"
  shows "df_filt (derivation (load_data rows)) bases_sel vars_sel = []
       \<and> dashboard rows bases_sel vars_sel = Inr [Warning_no_data, Stop]"
proof -
  have "\<forall>(i, r) \<in> set (derivation (load_data rows)).
          \<not> (Base r \<in> set bases_sel \<and> Variable r \<in> set vars_sel)"
    using assms
    by (auto simp: derivation_def load_data_def derive_row_def in_set_enumerate_eq)
  then have "df_filt (derivation (load_data rows)) bases_sel vars_sel = []"
    by (auto simp: df_filt_def isin_def filter_empty_conv)
  then show ?thesis by (simp add: dashboard_empty)
qed

theorem empty_selection_stops_witness:
  "list_all (\<lambda>r. \<not> (Base r \<in> set [''A''] \<and> Variable r \<in> set [''Y''])) example_grid
   \<and> df_filt (derivation (load_data example_grid)) [''A''] [''Y''] = []
   \<and> dashboard example_grid [''A''] [''Y''] = Inr [Warning_no_data, Stop]"
proof -
  have h: "\<forall>r \<in> set example_grid. \<not> (Base r \<in> set [''A''] \<and> Variable r \<in> set [''Y''])"
    by (simp add: example_grid_def)
  from empty_selection_stops[OF h] show ?thesis
    by (simp add: example_grid_def)
qed

text \<open>
  C5 (extremes and their tie-break).  For a non-empty filtered table \<open>f\<close> of a run, each of
  the four lookups returns a row of \<open>f\<close> (none raises): the row at the first position
  \<open>k\<close> of \<open>f\<close> whose \<open>LIC\<close> (\<open>LSC\<close>) is the largest (smallest) of the table, every
  row before position \<open>k\<close> being strictly worse.  The four metrics show the value, the base
  and the variable of these rows.
\<close>

theorem extremes_first_occurrence:
  assumes "f = recompute_rango (df_filt (derivation (load_data rows)) bases_sel vars_sel)"
    and "f \<noteq> []"
  shows "(\<exists>k<length f. lic_max_row f = Inr (snd (f ! k))
            \<and> (\<forall>j<length f. LIC (snd (f ! j)) \<le> LIC (snd (f ! k)))
            \<and> (\<forall>j<k. LIC (snd (f ! j)) < LIC (snd (f ! k))))
       \<and> (\<exists>k<length f. lic_min_row f = Inr (snd (f ! k))
            \<and> (\<forall>j<length f. LIC (snd (f ! k)) \<le> LIC (snd (f ! j)))
            \<and> (\<forall>j<k. LIC (snd (f ! k)) < LIC (snd (f ! j))))
       \<and> (\<exists>k<length f. lsc_max_row f = Inr (snd (f ! k))
            \<and> (\<forall>j<length f. LSC (snd (f ! j)) \<le> LSC (snd (f ! k)))
            \<and> (\<forall>j<k. LSC (snd (f ! j)) < LSC (snd (f ! k))))
       \<and> (\<exists>k<length f. lsc_min_row f = Inr (snd (f ! k))
            \<and> (\<forall>j<length f. LSC (snd (f ! k)) \<le> LSC (snd (f ! j)))
            \<and> (\<forall>j<k. LSC (snd (f ! k)) < LSC (snd (f ! j))))
       \<and> (\<exists>a b c d. lic_max_row f = Inr a \<and> lic_min_row f = Inr b
            \<and> lsc_max_row f = Inr c \<and> lsc_min_row f = Inr d
            \<and> kpis f = Inr [Metric ''LIC maximo'' (LIC a) (Base a) (Variable a),
                             Metric ''LIC minimo'' (LIC b) (Base b) (Variable b),
                             Metric ''LSC maximo'' (LSC c) (Base c) (Variable c),
                             Metric ''LSC minimo'' (LSC d) (Base d) (Variable d)])"
proof -
  have d: "distinct (map fst f)" unfolding assms(1) by (rule labels_filtered_view)
  have A: "\<exists>k<length f. lic_max_row f = Inr (snd (f ! k))
            \<and> (\<forall>j<length f. LIC (snd (f ! j)) \<le> LIC (snd (f ! k)))
            \<and> (\<forall>j<k. LIC (snd (f ! j)) < LIC (snd (f ! k)))"
    unfolding lic_max_row_def by (rule first_max_row[OF d assms(2)])
  have B: "\<exists>k<length f. lic_min_row f = Inr (snd (f ! k))
            \<and> (\<forall>j<length f. LIC (snd (f ! k)) \<le> LIC (snd (f ! j)))
            \<and> (\<forall>j<k. LIC (snd (f ! k)) < LIC (snd (f ! j)))"
    unfolding lic_min_row_def by (rule first_min_row[OF d assms(2)])
  have C: "\<exists>k<length f. lsc_max_row f = Inr (snd (f ! k))
            \<and> (\<forall>j<length f. LSC (snd (f ! j)) \<le> LSC (snd (f ! k)))
            \<and> (\<forall>j<k. LSC (snd (f ! j)) < LSC (snd (f ! k)))"
    unfolding lsc_max_row_def by (rule first_max_row[OF d assms(2)])
  have D: "\<exists>k<length f. lsc_min_row f = Inr (snd (f ! k))
            \<and> (\<forall>j<length f. LSC (snd (f ! k)) \<le> LSC (snd (f ! j)))
            \<and> (\<forall>j<k. LSC (snd (f ! k)) < LSC (snd (f ! j)))"
    unfolding lsc_min_row_def by (rule first_min_row[OF d assms(2)])
  note E = kpis_metrics[OF d assms(2)]
  show ?thesis
    by (intro conjI) (rule A, rule B, rule C, rule D, rule E)
qed

text \<open>
  The table of the example has the largest \<open>LIC\<close>, 10, at (A, X) and then at (B, Y), and
  the smallest \<open>LSC\<close>, 30, at the same two rows: (A, X) is reported for both.
\<close>

theorem extremes_first_occurrence_witness:
  "recompute_rango (df_filt (derivation (load_data example_tie)) [''A'', ''B''] [''X'', ''Y''])
     \<noteq> []
   \<and> lic_max_row
        (recompute_rango (df_filt (derivation (load_data example_tie)) [''A'', ''B''] [''X'', ''Y'']))
       = Inr \<lparr>Base = ''A'', Variable = ''X'', LIC = 10, LSC = 30, passthrough = [],
              Rango = 20, Centro = 20\<rparr>
   \<and> lsc_min_row
        (recompute_rango (df_filt (derivation (load_data example_tie)) [''A'', ''B''] [''X'', ''Y'']))
       = Inr \<lparr>Base = ''A'', Variable = ''X'', LIC = 10, LSC = 30, passthrough = [],
              Rango = 20, Centro = 20\<rparr>
   \<and> kpis
        (recompute_rango (df_filt (derivation (load_data example_tie)) [''A'', ''B''] [''X'', ''Y'']))
       = Inr [Metric ''LIC maximo'' 10 ''A'' ''X'', Metric ''LIC minimo'' 7 ''B'' ''X'',
              Metric ''LSC maximo'' 35 ''B'' ''X'', Metric ''LSC minimo'' 30 ''A'' ''X'']"
proof -
  have e: "recompute_rango
      (df_filt (derivation (load_data example_tie)) [''A'', ''B''] [''X'', ''Y'']) =
      [(0, \<lparr>Base = ''A'', Variable = ''X'', LIC = 10, LSC = 30, passthrough = [],
              Rango = 20, Centro = 20\<rparr>),
       (1, \<lparr>Base = ''B'', Variable = ''Y'', LIC = 10, LSC = 30, passthrough = [],
              Rango = 20, Centro = 20\<rparr>),
       (2, \<lparr>Base = ''B'', Variable = ''X'', LIC = 7, LSC = 35,
              passthrough = [(''Turno'', ''2'')], Rango = 28, Centro = 21\<rparr>)]"
    by (simp add: recompute_rango_def df_filt_def derivation_def load_data_def example_tie_def
        isin_def derive_row_def)
  have ne: "recompute_rango
      (df_filt (derivation (load_data example_tie)) [''A'', ''B''] [''X'', ''Y'']) \<noteq> []"
    by (simp add: e)
  from extremes_first_occurrence[OF refl ne] show ?thesis
    unfolding e
    by (simp add: kpis_def lic_max_row_def lic_min_row_def lsc_max_row_def
        lsc_min_row_def idxmax_def idxmin_def column_def loc_def)
qed

text \<open>
  C8 (idempotence of the derivation).  Applying lines 50-51 to a table that already went
  through them changes nothing; applying them, or line 89, to a filtered view of the derived
  table changes nothing either, and every row of the re-derived view is a row of the full
  derived table, with the same \<open>Rango\<close> and \<open>Centro\<close>.
\<close>

theorem derivation_idempotent:
  "derivation (derivation df) = derivation df
   \<and> derivation (df_filt (derivation df) bases_sel vars_sel)
       = df_filt (derivation df) bases_sel vars_sel
   \<and> recompute_rango (df_filt (derivation df) bases_sel vars_sel)
       = df_filt (derivation df) bases_sel vars_sel
   \<and> set (derivation (df_filt (derivation df) bases_sel vars_sel)) \<subseteq> set (derivation df)"
proof -
  have row: "\<And>r. derive_row (derive_row r) = derive_row r"
    by (simp add: derive_row_def)
  have 1: "derivation (derivation df) = derivation df"
    by (induction df) (auto simp: derivation_def row)
  have sub: "set (df_filt (derivation df) bases_sel vars_sel) \<subseteq> set (derivation df)"
    by (auto simp: df_filt_def)
  have same: "derive_row r = r" if "(i, r) \<in> set (derivation df)" for i r
    using that by (auto simp: derivation_def row)
  have same2: "r\<lparr>Rango := LSC r - LIC r\<rparr> = r" if "(i, r) \<in> set (derivation df)" for i r
    using that by (auto simp: derivation_def derive_row_def)
  have 2: "derivation (df_filt (derivation df) bases_sel vars_sel)
       = df_filt (derivation df) bases_sel vars_sel"
    unfolding derivation_def[of "df_filt _ _ _"]
    by (rule map_idI) (use sub same in auto)
  have 3: "recompute_rango (df_filt (derivation df) bases_sel vars_sel)
       = df_filt (derivation df) bases_sel vars_sel"
    unfolding recompute_rango_def
    by (rule map_idI) (use sub same2 in auto)
  show ?thesis using 1 2 3 sub by simp
qed

text \<open>
  C10 (the filter preserves order and rows).  The filtered table is a subsequence of the
  table: the retained rows stand in their original relative order, each with its index
  label and all its cells, the pass-through columns included, as they were.
\<close>

theorem df_filt_subseq:
  "subseq (df_filt df bases_sel vars_sel) df"
  by (simp add: df_filt_def)

text \<open>
  C4 (means per variable).  The table of tab 2 has one row per distinct variable of the
  filtered table, in strictly ascending order of the variable.  The row of variable \<open>v\<close>
  carries the arithmetic mean of \<open>LSC\<close> and the arithmetic mean of \<open>LIC\<close> over all rows of
  the filtered table whose variable is \<open>v\<close>, whatever their base; there is at least one
  such row.
\<close>

theorem df_vars_per_variable_means:
  "map fst (df_vars f) = sort (remdups (map (\<lambda>(i, r). Variable r) f))
   \<and> sorted (map fst (df_vars f)) \<and> distinct (map fst (df_vars f))
   \<and> set (map fst (df_vars f)) = (\<lambda>(i, r). Variable r) ` set f
   \<and> (\<forall>(v, mlsc, mlic) \<in> set (df_vars f).
         filter (\<lambda>(i, r). Variable r = v) f \<noteq> []
         \<and> mlsc = Some (sum_list (map (\<lambda>(i, r). LSC r) (filter (\<lambda>(i, r). Variable r = v) f))
                        / real (length (filter (\<lambda>(i, r). Variable r = v) f)))
         \<and> mlic = Some (sum_list (map (\<lambda>(i, r). LIC r) (filter (\<lambda>(i, r). Variable r = v) f))
                        / real (length (filter (\<lambda>(i, r). Variable r = v) f))))"
proof (intro conjI)
  show "map fst (df_vars f) = sort (remdups (map (\<lambda>(i, r). Variable r) f))"
    by (rule df_vars_keys)
  show "sorted (map fst (df_vars f))" by (simp add: df_vars_keys)
  show "distinct (map fst (df_vars f))" by (simp add: df_vars_keys)
  show "set (map fst (df_vars f)) = (\<lambda>(i, r). Variable r) ` set f"
    by (simp add: df_vars_keys)
  show "\<forall>(v, mlsc, mlic) \<in> set (df_vars f).
         filter (\<lambda>(i, r). Variable r = v) f \<noteq> []
         \<and> mlsc = Some (sum_list (map (\<lambda>(i, r). LSC r) (filter (\<lambda>(i, r). Variable r = v) f))
                        / real (length (filter (\<lambda>(i, r). Variable r = v) f)))
         \<and> mlic = Some (sum_list (map (\<lambda>(i, r). LIC r) (filter (\<lambda>(i, r). Variable r = v) f))
                        / real (length (filter (\<lambda>(i, r). Variable r = v) f)))"
    using df_vars_entry by blast
qed

text \<open>
  The rows (A, X, 10, 20) and (B, X, 14, 22): the group X has mean \<open>LIC\<close> 12 and mean
  \<open>LSC\<close> 21.
\<close>

theorem df_vars_per_variable_means_witness:
  "df_vars (recompute_rango (df_filt (derivation (load_data example_means)) [''A'', ''B''] [''X'']))
     = [(''X'', Some 21, Some 12)]
   \<and> (''X'', Some 21, Some 12)
       \<in> set (df_vars
           (recompute_rango (df_filt (derivation (load_data example_means)) [''A'', ''B''] [''X''])))
   \<and> map (\<lambda>(i, r). (Base r, LIC r, LSC r))
        (filter (\<lambda>(i, r). Variable r = ''X'')
           (recompute_rango (df_filt (derivation (load_data example_means)) [''A'', ''B''] [''X''])))
       = [(''A'', 10, 20), (''B'', 14, 22)]"
proof -
  have e: "recompute_rango (df_filt (derivation (load_data example_means)) [''A'', ''B''] [''X''])
      = [(0, \<lparr>Base = ''A'', Variable = ''X'', LIC = 10, LSC = 20, passthrough = [],
               Rango = 10, Centro = 15\<rparr>),
         (1, \<lparr>Base = ''B'', Variable = ''X'', LIC = 14, LSC = 22, passthrough = [],
               Rango = 8, Centro = 18\<rparr>)]"
    by (simp add: recompute_rango_def df_filt_def derivation_def load_data_def example_means_def
        isin_def derive_row_def)
  have d: "df_vars [(0, \<lparr>Base = ''A'', Variable = ''X'', LIC = 10, LSC = 20, passthrough = [],
               Rango = 10, Centro = 15\<rparr>),
         (1, \<lparr>Base = ''B'', Variable = ''X'', LIC = 14, LSC = 22, passthrough = [],
               Rango = 8, Centro = 18\<rparr>)] = [(''X'', Some 21, Some 12)]"
    by (simp add: df_vars_def groupby_var_mean_def mean_def)
  show ?thesis
    using df_vars_per_variable_means[of
        "recompute_rango (df_filt (derivation (load_data example_means)) [''A'', ''B''] [''X''])"]
    unfolding e d by simp
qed

text \<open>
  C6 (heatmap matrix).  The pivot table has one row per distinct base and one column per
  distinct variable of the filtered table, both in ascending order.  The cell of base \<open>b\<close>
  and variable \<open>v\<close> is the arithmetic mean of \<open>Rango\<close> over the rows with that base and
  that variable when there are such rows, and is empty (not zero) when there are none.
\<close>

theorem df_heat_matrix:
  "h_index (df_heat f) = sort (remdups (map (\<lambda>(i, r). Base r) f))
   \<and> h_columns (df_heat f) = sort (remdups (map (\<lambda>(i, r). Variable r) f))
   \<and> h_values (df_heat f) =
       map (\<lambda>b. map (\<lambda>v.
              if filter (\<lambda>(i, r). Base r = b \<and> Variable r = v) f = [] then None
              else Some (sum_list (map (\<lambda>(i, r). Rango r)
                                    (filter (\<lambda>(i, r). Base r = b \<and> Variable r = v) f))
                         / real (length (filter (\<lambda>(i, r). Base r = b \<and> Variable r = v) f))))
            (h_columns (df_heat f)))
         (h_index (df_heat f))"
proof -
  have cell: "unstacked (agged f) b v =
      (if filter (\<lambda>(i, r). Base r = b \<and> Variable r = v) f = [] then None
       else Some (sum_list (map (\<lambda>(i, r). Rango r)
                             (filter (\<lambda>(i, r). Base r = b \<and> Variable r = v) f))
                  / real (length (filter (\<lambda>(i, r). Base r = b \<and> Variable r = v) f))))"
    for b v
    by (simp add: unstacked_agged mean_def)
  show ?thesis
    using df_heat_parts[of f] unfolding cell by simp
qed

text \<open>
  A table with the pairs (A, X), (B, X) and (B, Y), the last one measured twice (ranges 3
  and 5): two rows, two columns, the cell (A, Y) empty and the cell (B, Y) the mean 4.
\<close>

theorem df_heat_matrix_witness:
  "df_heat (recompute_rango
       (df_filt (derivation (load_data example_grid)) [''A'', ''B''] [''X'', ''Y'']))
     = \<lparr>h_index = [''A'', ''B''], h_columns = [''X'', ''Y''],
        h_values = [[Some 10, None], [Some 8, Some 4]]\<rparr>"
proof -
  have e: "recompute_rango
       (df_filt (derivation (load_data example_grid)) [''A'', ''B''] [''X'', ''Y''])
      = [(0, \<lparr>Base = ''B'', Variable = ''Y'', LIC = 1, LSC = 4, passthrough = [],
               Rango = 3, Centro = 5 / 2\<rparr>),
         (1, \<lparr>Base = ''A'', Variable = ''X'', LIC = 10, LSC = 20, passthrough = [],
               Rango = 10, Centro = 15\<rparr>),
         (2, \<lparr>Base = ''B'', Variable = ''X'', LIC = 14, LSC = 22, passthrough = [],
               Rango = 8, Centro = 18\<rparr>),
         (3, \<lparr>Base = ''B'', Variable = ''Y'', LIC = 2, LSC = 7, passthrough = [],
               Rango = 5, Centro = 9 / 2\<rparr>)]"
    by (simp add: recompute_rango_def df_filt_def derivation_def load_data_def example_grid_def
        isin_def derive_row_def)
  have "h_index (df_heat (recompute_rango
       (df_filt (derivation (load_data example_grid)) [''A'', ''B''] [''X'', ''Y''])))
       = [''A'', ''B'']
     \<and> h_columns (df_heat (recompute_rango
       (df_filt (derivation (load_data example_grid)) [''A'', ''B''] [''X'', ''Y''])))
       = [''X'', ''Y'']
     \<and> h_values (df_heat (recompute_rango
       (df_filt (derivation (load_data example_grid)) [''A'', ''B''] [''X'', ''Y''])))
       = [[Some 10, None], [Some 8, Some 4]]"
    using df_heat_matrix[of "recompute_rango
       (df_filt (derivation (load_data example_grid)) [''A'', ''B''] [''X'', ''Y''])"]
    unfolding e by simp
  then show ?thesis by (cases "df_heat (recompute_rango
       (df_filt (derivation (load_data example_grid)) [''A'', ''B''] [''X'', ''Y'']))") simp
qed

text \<open>
  C7 (single-base gating), as the script has it.  Every run ends without an exception.
  The bar chart of the reshaped table is produced exactly when one base is selected and
  the filtered table is non-empty; the guidance message is shown exactly when the number of
  selected bases is not one and the filtered table is non-empty.  When the filtered table is
  empty, which is always so when no base is selected, the run is the no-data warning and
  the stop: tab 1 is not reached, and neither chart data nor the guidance message appears.
  The gate of tab 1 itself gives the guidance message alone whenever the number of selected
  bases is not one.
\<close>

theorem single_base_gating:
  "\<exists>es. dashboard rows bases_sel vars_sel = Inr es
      \<and> ((\<exists>m. Bar_limits m \<in> set es) \<longleftrightarrow>
           length bases_sel = 1 \<and> df_filt (derivation (load_data rows)) bases_sel vars_sel \<noteq> [])
      \<and> (Info_one_base \<in> set es \<longleftrightarrow>
           length bases_sel \<noteq> 1 \<and> df_filt (derivation (load_data rows)) bases_sel vars_sel \<noteq> [])
      \<and> (df_filt (derivation (load_data rows)) bases_sel vars_sel = [] \<longrightarrow>
           es = [Warning_no_data, Stop])
      \<and> (bases_sel = [] \<longrightarrow> df_filt (derivation (load_data rows)) bases_sel vars_sel = [])
      \<and> (length bases_sel \<noteq> 1 \<longrightarrow> tab1 bases_sel g = [Info_one_base])"
proof (cases "df_filt (derivation (load_data rows)) bases_sel vars_sel = []")
  case True
  have "dashboard rows bases_sel vars_sel = Inr [Warning_no_data, Stop]"
    using True by (rule dashboard_empty)
  then show ?thesis using True by (simp add: df_filt_no_base tab1_other)
next
  case False
  define f where "f = recompute_rango (df_filt (derivation (load_data rows)) bases_sel vars_sel)"
  have ne: "f \<noteq> []" using False by (simp add: f_def recompute_rango_empty)
  from dashboard_nonempty[OF f_def ne] obtain ms where ms: "list_all plain ms"
    "dashboard rows bases_sel vars_sel = Inr (ms @ tab1 bases_sel f @ tab2 f @ tab3 f)"
    by blast
  have out: "e \<in> set (ms @ tab1 bases_sel f @ tab2 f @ tab3 f) \<longleftrightarrow> e \<in> set (tab1 bases_sel f)"
    if "\<not> plain e" for e
    using plain_not_mem[OF ms(1) that] plain_not_mem[OF plain_tab2 that]
      plain_not_mem[OF plain_tab3 that] by simp
  define es where "es = ms @ tab1 bases_sel f @ tab2 f @ tab3 f"
  have A: "(\<exists>m. Bar_limits m \<in> set es) \<longleftrightarrow> (\<exists>m. Bar_limits m \<in> set (tab1 bases_sel f))"
    unfolding es_def using out by simp
  have B: "Info_one_base \<in> set es \<longleftrightarrow> Info_one_base \<in> set (tab1 bases_sel f)"
    unfolding es_def by (rule out) simp
  have nb: "bases_sel \<noteq> []" using False by (auto simp: df_filt_no_base)
  have run: "dashboard rows bases_sel vars_sel = Inr es" using ms(2) by (simp add: es_def)
  have "((\<exists>m. Bar_limits m \<in> set es) \<longleftrightarrow> length bases_sel = 1)
      \<and> (Info_one_base \<in> set es \<longleftrightarrow> length bases_sel \<noteq> 1)"
  proof (cases "length bases_sel = 1")
    case True
    have "tab1 bases_sel f = [Write_base (bases_sel ! 0), Bar_limits (melt f)]"
      using True f_def ne by (rule tab1_one_base)
    then show ?thesis using True by (simp add: A B)
  next
    case other: False
    have "tab1 bases_sel f = [Info_one_base]" using other by (rule tab1_other)
    then show ?thesis using other by (simp add: A B)
  qed
  then show ?thesis using run False nb by (simp add: tab1_other)
qed

text \<open>
  Three runs on the example with three of the four pairs: two bases selected (guidance, no
  chart), one base selected (chart, no guidance), no base selected (warning and stop only).
\<close>

theorem single_base_gating_witness:
  "(\<exists>es. dashboard example_grid [''A'', ''B''] [''X''] = Inr es
        \<and> Info_one_base \<in> set es \<and> (\<forall>m. Bar_limits m \<notin> set es))
   \<and> (\<exists>es. dashboard example_grid [''A''] [''X''] = Inr es
        \<and> Info_one_base \<notin> set es \<and> (\<exists>m. Bar_limits m \<in> set es))
   \<and> (\<exists>es. dashboard example_grid [] [''X''] = Inr es \<and> es = [Warning_no_data, Stop])
   \<and> tab1 [''A'', ''B''] [] = [Info_one_base]"
proof -
  have 1: "df_filt (derivation (load_data example_grid)) [''A'', ''B''] [''X''] \<noteq> []"
    by (simp add: df_filt_def derivation_def load_data_def example_grid_def isin_def
        derive_row_def)
  have 2: "df_filt (derivation (load_data example_grid)) [''A''] [''X''] \<noteq> []"
    by (simp add: df_filt_def derivation_def load_data_def example_grid_def isin_def
        derive_row_def)
  show ?thesis
    using single_base_gating[of example_grid "[''A'', ''B'']" "[''X'']" "[]"]
      single_base_gating[of example_grid "[''A'']" "[''X'']" "[]"]
      single_base_gating[of example_grid "[]" "[''X'']" "[]"] 1 2
    by auto
qed

text \<open>
  With no base selected the run shows the no-data warning and stops; the guidance message
  is not among its events.
\<close>

theorem single_base_gating_counterexample:
  "length ([] :: string list) \<noteq> 1
   \<and> dashboard example_means [] [''X''] = Inr [Warning_no_data, Stop]
   \<and> Info_one_base \<notin> set [Warning_no_data, Stop]"
  by (simp add: dashboard_def df_filt_def isin_def)

text \<open>
  C9 (the inner warning of tab 1 is unreachable).  When exactly one base is selected and
  the filtered table \<open>f\<close> of the run is non-empty, the rows of \<open>f\<close> with the selected base
  are all of \<open>f\<close>, so \<open>df_base\<close> is non-empty, tab 1 shows the bar chart of the reshaped
  \<open>f\<close>, and the run has no warning about an empty base.
\<close>

theorem single_base_subset_is_whole:
  assumes "length bases_sel = 1"
    and "f = recompute_rango (df_filt (derivation (load_data rows)) bases_sel vars_sel)"
    and "f \<noteq> []"
  shows "df_base f (bases_sel ! 0) = f \<and> df_base f (bases_sel ! 0) \<noteq> []
       \<and> tab1 bases_sel f = [Write_base (bases_sel ! 0), Bar_limits (melt f)]
       \<and> (\<exists>es. dashboard rows bases_sel vars_sel = Inr es \<and> Warning_base_empty \<notin> set es)"
proof -
  have whole: "df_base f (bases_sel ! 0) = f"
    unfolding assms(2) using assms(1) by (rule df_base_whole)
  have t1: "tab1 bases_sel f = [Write_base (bases_sel ! 0), Bar_limits (melt f)]"
    using assms by (rule tab1_one_base)
  from dashboard_nonempty[OF assms(2,3)] obtain ms where ms: "list_all plain ms"
    "dashboard rows bases_sel vars_sel = Inr (ms @ tab1 bases_sel f @ tab2 f @ tab3 f)"
    by blast
  have "Warning_base_empty \<notin> set (ms @ tab1 bases_sel f @ tab2 f @ tab3 f)"
    using plain_not_mem[OF ms(1), of Warning_base_empty]
      plain_not_mem[OF plain_tab2, of Warning_base_empty f]
      plain_not_mem[OF plain_tab3, of Warning_base_empty f] t1 by simp
  then show ?thesis using whole t1 ms(2) assms(3) by simp
qed

theorem single_base_subset_is_whole_witness:
  "length [''B''] = 1
   \<and> recompute_rango (df_filt (derivation (load_data example_grid)) [''B''] [''Y'', ''X'']) \<noteq> []
   \<and> map fst (df_base
        (recompute_rango (df_filt (derivation (load_data example_grid)) [''B''] [''Y'', ''X'']))
        ([''B''] ! 0)) = [0, 2, 3]
   \<and> tab1 [''B'']
        (recompute_rango (df_filt (derivation (load_data example_grid)) [''B''] [''Y'', ''X'']))
       = [Write_base ''B'',
          Bar_limits [(''Y'', ''LIC'', 1), (''X'', ''LIC'', 14), (''Y'', ''LIC'', 2),
                      (''Y'', ''LSC'', 4), (''X'', ''LSC'', 22), (''Y'', ''LSC'', 7)]]
   \<and> (\<exists>es. dashboard example_grid [''B''] [''Y'', ''X''] = Inr es
         \<and> Warning_base_empty \<notin> set es)"
proof -
  have e: "recompute_rango (df_filt (derivation (load_data example_grid)) [''B''] [''Y'', ''X''])
      = [(0, \<lparr>Base = ''B'', Variable = ''Y'', LIC = 1, LSC = 4, passthrough = [],
               Rango = 3, Centro = 5 / 2\<rparr>),
         (2, \<lparr>Base = ''B'', Variable = ''X'', LIC = 14, LSC = 22, passthrough = [],
               Rango = 8, Centro = 18\<rparr>),
         (3, \<lparr>Base = ''B'', Variable = ''Y'', LIC = 2, LSC = 7, passthrough = [],
               Rango = 5, Centro = 9 / 2\<rparr>)]"
    by (simp add: recompute_rango_def df_filt_def derivation_def load_data_def example_grid_def
        isin_def derive_row_def)
  have l: "length [''B''] = 1" by simp
  have ne: "recompute_rango
      (df_filt (derivation (load_data example_grid)) [''B''] [''Y'', ''X'']) \<noteq> []"
    by (simp add: e)
  from single_base_subset_is_whole[OF l refl ne] show ?thesis
    unfolding e by (simp add: melt_def)
qed

end
